theory Spec2Isabelle
  imports Main "HOL-Library.Signed_Division" "HOL-Library.Word"
begin

section \<open>Abnormal ends of a call\<close>

text \<open>
  Every way in which one of the exported functions can fail to return to its caller is a
  value of \<open>fault\<close>:
  \<^item> \<open>Terminated\<close>: \<^verbatim>\<open>std::terminate()\<close> was called (Spinlock.cpp, line 113);
  \<^item> \<open>SignedOverflow\<close>: \<^verbatim>\<open>s_NextKey++\<close> at \<^verbatim>\<open>INT64_MAX\<close>, undefined in C++;
  \<^item> \<open>NullDereference\<close>: \<^verbatim>\<open>tptr->tm_year\<close> with \<^verbatim>\<open>tptr == NULL\<close> (TimeStamp.cpp);
  \<^item> \<open>OutOfBounds\<close>: a read or a write past the end of the caller's buffer.
\<close>

datatype fault = Terminated | SignedOverflow | NullDereference | OutOfBounds

section \<open>Spinlock.cpp: the lock registry\<close>

text \<open>
  The two file-level variables \<^verbatim>\<open>s_SpinLockMap\<close> (an
  \<^verbatim>\<open>unordered_map<int64_t, atomic_flag>\<close>) and \<^verbatim>\<open>s_NextKey\<close> are the fields of the
  state. An \<^verbatim>\<open>atomic_flag\<close> is a boolean: \<open>True\<close> is set (locked). Handles are
  \<^verbatim>\<open>int64_t\<close> values, modelled as integers; the only arithmetic on them is the
  increment in \<open>CreateSpinLockImpl\<close>, whose overflow is written out.

  The model is sequential: one call runs to its end before the next one starts.
\<close>

record registry =
  s_SpinLockMap :: "int \<rightharpoonup> bool"
  s_NextKey :: int

definition INT64_MAX :: int where
  "INT64_MAX = 9223372036854775807"

text \<open>Lines 10 and 11: the map starts empty, and the counter at 1.\<close>

definition initial_registry :: registry where
  "initial_registry = \<lparr>s_SpinLockMap = Map.empty, s_NextKey = 1\<rparr>"

text \<open>
  \<^verbatim>\<open>s_SpinLockMap.emplace(piecewise_construct, forward_as_tuple(key), forward_as_tuple())\<close>:
  nothing happens when the key is present; otherwise the flag is value-initialised, which
  zero-initialises it (clear).
\<close>

definition emplace :: "(int \<rightharpoonup> bool) \<Rightarrow> int \<Rightarrow> (int \<rightharpoonup> bool)" where
  "emplace m key = (case m key of Some _ \<Rightarrow> m | None \<Rightarrow> m(key \<mapsto> False))"

definition CreateSpinLockImpl :: "registry \<Rightarrow> fault + (int \<times> registry)" where
  "CreateSpinLockImpl s =
     (if s_NextKey s = INT64_MAX then Inl SignedOverflow
      else let key = s_NextKey s + 1
           in Inr (key, \<lparr>s_SpinLockMap = emplace (s_SpinLockMap s) key, s_NextKey = key\<rparr>))"

text \<open>
  \<open>RetrieveLockFromHandle\<close> returns a reference to the flag stored under the handle. The
  reference is the handle's slot of the map; the function's value here is the flag's
  current content, and \<open>test_and_set\<close> and \<open>clear\<close> write through the slot.
\<close>

definition RetrieveLockFromHandle :: "registry \<Rightarrow> int \<Rightarrow> fault + bool" where
  "RetrieveLockFromHandle s handle =
     (case s_SpinLockMap s handle of None \<Rightarrow> Inl Terminated | Some flag \<Rightarrow> Inr flag)"

definition test_and_set :: "registry \<Rightarrow> int \<Rightarrow> bool \<Rightarrow> bool \<times> registry" where
  "test_and_set s slot flag = (flag, s\<lparr>s_SpinLockMap := (s_SpinLockMap s)(slot \<mapsto> True)\<rparr>)"

definition clear :: "registry \<Rightarrow> int \<Rightarrow> registry" where
  "clear s slot = s\<lparr>s_SpinLockMap := (s_SpinLockMap s)(slot \<mapsto> False)\<rparr>"

text \<open>
  \<open>LockImpl\<close> is the loop \<^verbatim>\<open>while (RetrieveLockFromHandle(handle).test_and_set()) ;\<close>.
  In a sequential run nobody clears the flag while the loop spins, so the loop may not
  end: not returning is the value \<open>None\<close>.
\<close>

partial_function (option) LockImpl :: "registry \<Rightarrow> int \<Rightarrow> (fault + (bool \<times> registry)) option" where
  "LockImpl s handle =
     (case RetrieveLockFromHandle s handle of
        Inl f \<Rightarrow> Some (Inl f)
      | Inr flag \<Rightarrow>
          (case test_and_set s handle flag of
             (was_set, s') \<Rightarrow> if was_set then LockImpl s' handle else Some (Inr (True, s'))))"

definition TryLockImpl :: "registry \<Rightarrow> int \<Rightarrow> fault + (bool \<times> registry)" where
  "TryLockImpl s handle =
     (case RetrieveLockFromHandle s handle of
        Inl f \<Rightarrow> Inl f
      | Inr flag \<Rightarrow>
          (case test_and_set s handle flag of (was_set, s') \<Rightarrow> Inr (was_set = False, s')))"

definition UnlockImpl :: "registry \<Rightarrow> int \<Rightarrow> fault + registry" where
  "UnlockImpl s handle =
     (case RetrieveLockFromHandle s handle of
        Inl f \<Rightarrow> Inl f
      | Inr flag \<Rightarrow> Inr (clear s handle))"

text \<open>\<^verbatim>\<open>s_SpinLockMap.erase(handle)\<close> removes the key when it is there and does nothing otherwise.\<close>

definition DestroySpinLockImpl :: "registry \<Rightarrow> int \<Rightarrow> registry" where
  "DestroySpinLockImpl s handle = s\<lparr>s_SpinLockMap := (s_SpinLockMap s)(handle := None)\<rparr>"

subsection \<open>The exported functions\<close>

text \<open>
  Each exported function has two bodies, chosen when the library is built: with
  \<^verbatim>\<open>__EMSCRIPTEN__\<close> defined it is a constant, otherwise it calls the function above.
  The registry exists in the second build only, \<open>Native\<close>, and the properties of the
  registry proved below are properties of that build.
\<close>

datatype target = Native | Emscripten

definition CreateSpinLock :: "target \<Rightarrow> registry \<Rightarrow> fault + (int \<times> registry)" where
  "CreateSpinLock t s = (case t of Native \<Rightarrow> CreateSpinLockImpl s | Emscripten \<Rightarrow> Inr (42, s))"

definition Lock :: "target \<Rightarrow> registry \<Rightarrow> int \<Rightarrow> (fault + (bool \<times> registry)) option" where
  "Lock t s handle = (case t of Native \<Rightarrow> LockImpl s handle | Emscripten \<Rightarrow> Some (Inr (True, s)))"

definition TryLock :: "target \<Rightarrow> registry \<Rightarrow> int \<Rightarrow> fault + (bool \<times> registry)" where
  "TryLock t s handle = (case t of Native \<Rightarrow> TryLockImpl s handle | Emscripten \<Rightarrow> Inr (True, s))"

definition Unlock :: "target \<Rightarrow> registry \<Rightarrow> int \<Rightarrow> fault + registry" where
  "Unlock t s handle = (case t of Native \<Rightarrow> UnlockImpl s handle | Emscripten \<Rightarrow> Inr s)"

definition DestroySpinLock :: "target \<Rightarrow> registry \<Rightarrow> int \<Rightarrow> registry" where
  "DestroySpinLock t s handle = (case t of Native \<Rightarrow> DestroySpinLockImpl s handle | Emscripten \<Rightarrow> s)"

subsection \<open>Sequences of calls\<close>

text \<open>
  A caller's program is a list of calls. \<open>call\<close> runs one of them: \<open>None\<close> when it never
  returns, a fault when the process ends in it, and otherwise the value it returns with
  the registry it leaves. \<open>run\<close> runs the list from left to right and stops at the first
  call that does not return; it gives the values returned so far and how the run ended.
\<close>

datatype op = Create | DoLock int | DoTryLock int | DoUnlock int | Destroy int

datatype ret = Handle int | Flag bool | Void

definition call :: "target \<Rightarrow> registry \<Rightarrow> op \<Rightarrow> (fault + (ret \<times> registry)) option" where
  "call t s c =
     (case c of
        Create \<Rightarrow> Some (map_sum id (\<lambda>(h, s'). (Handle h, s')) (CreateSpinLock t s))
      | DoLock h \<Rightarrow> map_option (map_sum id (\<lambda>(b, s'). (Flag b, s'))) (Lock t s h)
      | DoTryLock h \<Rightarrow> Some (map_sum id (\<lambda>(b, s'). (Flag b, s')) (TryLock t s h))
      | DoUnlock h \<Rightarrow> Some (map_sum id (\<lambda>s'. (Void, s')) (Unlock t s h))
      | Destroy h \<Rightarrow> Some (Inr (Void, DestroySpinLock t s h)))"

fun run :: "target \<Rightarrow> registry \<Rightarrow> op list \<Rightarrow> ret list \<times> (fault + registry) option" where
  "run t s [] = ([], Some (Inr s))"
| "run t s (c # cs) =
     (case call t s c of
        None \<Rightarrow> ([], None)
      | Some (Inl f) \<Rightarrow> ([], Some (Inl f))
      | Some (Inr (r, s')) \<Rightarrow> (case run t s' cs of (rs, fin) \<Rightarrow> (r # rs, fin)))"

fun handles :: "ret list \<Rightarrow> int list" where
  "handles [] = []"
| "handles (Handle h # rs) = h # handles rs"
| "handles (_ # rs) = handles rs"

fun creates :: "op list \<Rightarrow> nat" where
  "creates [] = 0"
| "creates (Create # cs) = Suc (creates cs)"
| "creates (_ # cs) = creates cs"

fun lifecycle_only :: "op \<Rightarrow> bool" where
  "lifecycle_only Create = True"
| "lifecycle_only (Destroy h) = True"
| "lifecycle_only _ = False"

text \<open>
  The invariant of the registry that the proofs use: every key of the map has been issued,
  so it is at most the counter.
\<close>

definition keys_issued :: "registry \<Rightarrow> bool" where
  "keys_issued s = (\<forall>k. s_SpinLockMap s k \<noteq> None \<longrightarrow> k \<le> s_NextKey s)"

section \<open>DotsRuntimePrintWrapper.cpp: the console writer\<close>

subsection \<open>The standard output stream\<close>

text \<open>
  The functions of this file call \<^verbatim>\<open>printf\<close>, \<^verbatim>\<open>setvbuf\<close> and \<^verbatim>\<open>fflush\<close> on
  \<^verbatim>\<open>stdout\<close>. The C library is not part of the repository, so the stream is modelled
  after ISO C (7.21.3): a stream has a buffering mode and a buffer size, the bytes still
  held in its buffer, and the bytes already transmitted to the host environment.

  When a buffered stream transmits is implementation-defined. It is a parameter of the
  model: after a byte has been put into the buffer, \<open>drain mode size buffer\<close> is the
  number of bytes, from the front of the buffer, that the library transmits now. An
  unbuffered stream transmits every byte at once.
\<close>

type_synonym byte = "8 word"

datatype buffering = IONBF | IOLBF | IOFBF

type_synonym drain = "buffering \<Rightarrow> nat \<Rightarrow> byte list \<Rightarrow> nat"

record stream =
  buf_mode :: buffering
  buf_size :: nat
  buffered :: "byte list"
  transmitted :: "byte list"

definition fputc :: "drain \<Rightarrow> stream \<Rightarrow> byte \<Rightarrow> stream" where
  "fputc d out c =
     (let buf = buffered out @ [c];
          k = (if buf_mode out = IONBF then length buf else d (buf_mode out) (buf_size out) buf)
      in out\<lparr>buffered := drop k buf, transmitted := transmitted out @ take k buf\<rparr>)"

definition fputs :: "drain \<Rightarrow> stream \<Rightarrow> byte list \<Rightarrow> stream" where
  "fputs d out bs = foldl (fputc d) out bs"

definition fflush :: "stream \<Rightarrow> stream" where
  "fflush out = out\<lparr>buffered := [], transmitted := transmitted out @ buffered out\<rparr>"

text \<open>
  \<^verbatim>\<open>setvbuf\<close> installs a new buffer. ISO C defines it only for a stream on which nothing
  else has been done; the libraries in use transmit what the old buffer holds and then
  switch, which is what the model does (on a stream that holds nothing the two agree).
\<close>

definition setvbuf :: "stream \<Rightarrow> buffering \<Rightarrow> nat \<Rightarrow> stream" where
  "setvbuf out m n = (fflush out)\<lparr>buf_mode := m, buf_size := n\<rparr>"

text \<open>A usual library: a full buffer is transmitted, and a line-buffered one at a new-line.\<close>

definition stdio_drain :: drain where
  "stdio_drain m n buf =
     (if n \<le> length buf \<or> (m = IOLBF \<and> buf \<noteq> [] \<and> last buf = 10) then length buf else 0)"

text \<open>
  The conversion \<^verbatim>\<open>%.*s\<close> of \<^verbatim>\<open>printf\<close>, on the bytes \<open>mem\<close> that are readable at the
  pointer: the bytes up to the first zero byte, and no more than \<open>precision\<close> of them. A
  negative precision counts as none given. Reading past the readable bytes is a fault.
\<close>

definition format_s :: "int \<Rightarrow> byte list \<Rightarrow> fault + byte list" where
  "format_s precision mem =
     (let window = (if precision < 0 then mem else take (nat precision) mem);
          str = takeWhile (\<lambda>c. c \<noteq> 0) window
      in if length str = length mem \<and> (precision < 0 \<or> length mem < nat precision)
         then Inl OutOfBounds else Inr str)"

subsection \<open>The exported functions\<close>

text \<open>\<^verbatim>\<open>printf("%.*s%s", numBytes, (const char*)byteBuffer, newLine ? "\n" : "")\<close>\<close>

definition ConsoleWrite :: "drain \<Rightarrow> stream \<Rightarrow> byte list \<Rightarrow> int \<Rightarrow> 8 word \<Rightarrow> fault + stream" where
  "ConsoleWrite d out byteBuffer numBytes newLine =
     (case format_s numBytes byteBuffer of
        Inl f \<Rightarrow> Inl f
      | Inr str \<Rightarrow> Inr (fputs d out (str @ (if newLine \<noteq> 0 then [10] else []))))"

definition BeginBatchConsoleWrite :: "stream \<Rightarrow> stream" where
  "BeginBatchConsoleWrite out = (let n = 8192 in setvbuf out IOFBF n)"

definition Flush :: "stream \<Rightarrow> stream" where
  "Flush out = fflush out"

definition EndBatchConsoleWrite :: "stream \<Rightarrow> stream" where
  "EndBatchConsoleWrite out = Flush out"

text \<open>A sequence of \<open>ConsoleWrite\<close> calls, each with its buffer, length and new-line flag.\<close>

fun console_writes :: "drain \<Rightarrow> stream \<Rightarrow> (byte list \<times> int \<times> 8 word) list \<Rightarrow> fault + stream" where
  "console_writes d out [] = Inr out"
| "console_writes d out ((byteBuffer, numBytes, newLine) # ws) =
     (case ConsoleWrite d out byteBuffer numBytes newLine of
        Inl f \<Rightarrow> Inl f
      | Inr out' \<Rightarrow> console_writes d out' ws)"

text \<open>Everything written to a stream so far, transmitted or not.\<close>

definition written :: "stream \<Rightarrow> byte list" where
  "written out = transmitted out @ buffered out"

section \<open>TimeStamp.cpp: formatting a time stamp\<close>

text \<open>
  The fields of \<^verbatim>\<open>struct tm\<close> that the two functions read. \<^verbatim>\<open>localtime\<close> belongs to the
  C library and depends on the host's time zone, so it is a parameter of the model: it
  gives \<open>None\<close> where the library returns a null pointer. \<^verbatim>\<open>time_t\<close> is taken to be as
  wide as \<^verbatim>\<open>int64_t\<close>, so that the cast of \<^verbatim>\<open>&ts\<close> reads \<open>ts\<close>. The fields are
  \<^verbatim>\<open>int\<close>s; a count of nanoseconds in an \<^verbatim>\<open>int64_t\<close> denotes a time between the years
  1677 and 2262, so the sums \<^verbatim>\<open>tm_year + 1900\<close> and \<^verbatim>\<open>tm_mon + 1\<close> do not overflow.
\<close>

record tm =
  tm_sec :: int
  tm_min :: int
  tm_hour :: int
  tm_mday :: int
  tm_mon :: int
  tm_year :: int

text \<open>
  The conversion \<^verbatim>\<open>%.Nd\<close>: a minus sign for a negative value, then the decimal digits,
  with zeros in front up to \<open>N\<close> digits.
\<close>

fun digits :: "nat \<Rightarrow> string" where
  "digits n = (if n = 0 then [] else digits (n div 10) @ [''0123456789'' ! (n mod 10)])"

declare digits.simps [simp del]

definition print_d :: "nat \<Rightarrow> int \<Rightarrow> string" where
  "print_d precision v =
     (let ds = digits (nat \<bar>v\<bar>)
      in (if v < 0 then ''-'' else []) @ replicate (precision - length ds) (CHR ''0'') @ ds)"

text \<open>
  \<^verbatim>\<open>snprintf(buffer, n, ...)\<close> with the formatted text \<open>text\<close>, on a buffer of
  \<open>length buffer\<close> bytes: for \<open>n > 0\<close> it stores the first \<open>n - 1\<close> characters of the text
  and a zero byte, and it returns the length of the whole text. Storing past the end of
  the buffer is a fault. The \<^verbatim>\<open>int\<close> argument \<^verbatim>\<open>bufferSize\<close> is converted to
  \<^verbatim>\<open>size_t\<close> (64 bits).
\<close>

definition size_t :: "int \<Rightarrow> nat" where
  "size_t i = nat (i mod 2 ^ 64)"

definition INT_MAX :: int where
  "INT_MAX = 2147483647"

definition snprintf :: "string \<Rightarrow> nat \<Rightarrow> string \<Rightarrow> fault + (int \<times> string)" where
  "snprintf buffer n text =
     (let stored = (if n = 0 then [] else take (n - 1) text @ [CHR 0x00])
      in if length buffer < length stored then Inl OutOfBounds
         else Inr (int (length text), stored @ drop (length stored) buffer))"

text \<open>The text of \<^verbatim>\<open>"%.4d-%.2d-%.2d %.2d:%.2d:%.2d,%.3d"\<close> and of \<^verbatim>\<open>"%.4d%.2d%.2d%.2d%.2d"\<close>.\<close>

definition timestamp_text :: "tm \<Rightarrow> int \<Rightarrow> string" where
  "timestamp_text tptr tsMSec =
     print_d 4 (tm_year tptr + 1900) @ ''-'' @ print_d 2 (tm_mon tptr + 1) @ ''-'' @
     print_d 2 (tm_mday tptr) @ '' '' @ print_d 2 (tm_hour tptr) @ '':'' @
     print_d 2 (tm_min tptr) @ '':'' @ print_d 2 (tm_sec tptr) @ '','' @ print_d 3 tsMSec"

definition filename_text :: "tm \<Rightarrow> string" where
  "filename_text tptr =
     print_d 4 (tm_year tptr + 1900) @ print_d 2 (tm_mon tptr + 1) @ print_d 2 (tm_mday tptr) @
     print_d 2 (tm_hour tptr) @ print_d 2 (tm_min tptr)"

text \<open>
  The two functions. \<^verbatim>\<open>/\<close> and \<^verbatim>\<open>%\<close> of C++ truncate towards zero (\<open>sdiv\<close>, \<open>smod\<close>).
  The result is the value returned and the buffer as the call leaves it.
\<close>

definition GetFormattedTimeStampString ::
  "(int \<Rightarrow> tm option) \<Rightarrow> int \<Rightarrow> string \<Rightarrow> int \<Rightarrow> fault + (int \<times> string)" where
  "GetFormattedTimeStampString localtime tsNano buffer bufferSize =
     (let ts = tsNano sdiv 1000000000;
          tsMSec = (tsNano smod 1000000000) sdiv 1000000
      in case localtime ts of
           None \<Rightarrow> Inl NullDereference
         | Some tptr \<Rightarrow>
             (case snprintf buffer (size_t bufferSize) (timestamp_text tptr tsMSec) of
                Inl f \<Rightarrow> Inl f
              | Inr (len, buffer') \<Rightarrow> Inr (if len < 0 then 0 else len, buffer')))"

definition GetFormattedTimeStampStringForFileNameNative ::
  "(int \<Rightarrow> tm option) \<Rightarrow> int \<Rightarrow> string \<Rightarrow> int \<Rightarrow> fault + (int \<times> string)" where
  "GetFormattedTimeStampStringForFileNameNative localtime tsNano buffer bufferSize =
     (let ts = tsNano sdiv 1000000000
      in case localtime ts of
           None \<Rightarrow> Inl NullDereference
         | Some tptr \<Rightarrow>
             (case snprintf buffer (size_t bufferSize) (filename_text tptr) of
                Inl f \<Rightarrow> Inl f
              | Inr (len, buffer') \<Rightarrow> Inr (if len < 0 then 0 else len, buffer')))"

text \<open>The C string a buffer holds: its characters before the first zero byte.\<close>

definition c_str :: "string \<Rightarrow> string" where
  "c_str buffer = takeWhile (\<lambda>c. c \<noteq> CHR 0x00) buffer"

text \<open>A calendar conversion that fails before 1970, as the Microsoft C library's does.\<close>

definition localtime_from_1970 :: "(int \<Rightarrow> tm) \<Rightarrow> int \<Rightarrow> tm option" where
  "localtime_from_1970 convert ts = (if ts < 0 then None else Some (convert ts))"

section \<open>Properties of the lock registry\<close>

lemma LockImpl_absent:
  "s_SpinLockMap s h = None \<Longrightarrow> LockImpl s h = Some (Inl Terminated)"
  by (subst LockImpl.simps) (simp add: RetrieveLockFromHandle_def)

lemma LockImpl_clear:
  "s_SpinLockMap s h = Some False \<Longrightarrow>
   LockImpl s h = Some (Inr (True, s\<lparr>s_SpinLockMap := (s_SpinLockMap s)(h \<mapsto> True)\<rparr>))"
  by (subst LockImpl.simps) (simp add: RetrieveLockFromHandle_def test_and_set_def)

lemma LockImpl_returns:
  assumes "LockImpl s h = Some r"
  shows "s_SpinLockMap s h \<noteq> Some True"
proof (rule LockImpl.raw_induct [where P = "\<lambda>s h r. s_SpinLockMap s h \<noteq> Some True", OF _ assms])
  fix f s h r
  assume IH: "\<And>s h r. f s h = Some r \<Longrightarrow> s_SpinLockMap s h \<noteq> Some True"
    and step: "(case RetrieveLockFromHandle s h of
        Inl f \<Rightarrow> Some (Inl f)
      | Inr flag \<Rightarrow>
          (case test_and_set s h flag of
             (was_set, s') \<Rightarrow> if was_set then f s' h else Some (Inr (True, s')))) = Some r"
  show "s_SpinLockMap s h \<noteq> Some True"
  proof
    assume set: "s_SpinLockMap s h = Some True"
    with step have "f (s\<lparr>s_SpinLockMap := (s_SpinLockMap s)(h \<mapsto> True)\<rparr>) h = Some r"
      by (simp add: RetrieveLockFromHandle_def test_and_set_def)
    from IH [OF this] show False by simp
  qed
qed

lemma LockImpl_set: "s_SpinLockMap s h = Some True \<Longrightarrow> LockImpl s h = None"
  using LockImpl_returns [of s h] by (cases "LockImpl s h") auto

lemma LockImpl_cases:
  "LockImpl s h = (case s_SpinLockMap s h of None \<Rightarrow> Some (Inl Terminated)
     | Some True \<Rightarrow> None
     | Some False \<Rightarrow> Some (Inr (True, s\<lparr>s_SpinLockMap := (s_SpinLockMap s)(h \<mapsto> True)\<rparr>)))"
  by (simp add: LockImpl_absent LockImpl_clear LockImpl_set split: option.splits bool.splits)

lemma call_Native_effect:
  assumes "call Native s c = Some (Inr (r, s'))"
  shows "s_NextKey s \<le> s_NextKey s'"
    and "s_SpinLockMap s' k \<noteq> None \<Longrightarrow> s_SpinLockMap s k \<noteq> None \<or> k = s_NextKey s'"
    and "r = Handle h \<Longrightarrow> s_NextKey s < h \<and> h = s_NextKey s'"
  using assms 
  by (cases c; auto simp: call_def CreateSpinLock_def CreateSpinLockImpl_def Lock_def TryLock_def TryLockImpl_def
    Unlock_def UnlockImpl_def DestroySpinLock_def DestroySpinLockImpl_def RetrieveLockFromHandle_def
    test_and_set_def clear_def emplace_def Let_def LockImpl_cases
    split: option.splits sum.splits if_splits prod.splits bool.splits)+

lemma call_Native_keys_issued:
  assumes "call Native s c = Some (Inr (r, s'))" and "keys_issued s"
  shows "keys_issued s'"
  unfolding keys_issued_def
proof (intro allI impI)
  fix k assume "s_SpinLockMap s' k \<noteq> None"
  from call_Native_effect(2) [OF assms(1) this] call_Native_effect(1) [OF assms(1)] assms(2)
  show "k \<le> s_NextKey s'" by (auto simp: keys_issued_def)
qed

lemma run_handles_above:
  "h \<in> set (handles (fst (run Native s ops))) \<Longrightarrow> s_NextKey s < h"
proof (induction ops arbitrary: s)
  case Nil
  then show ?case by simp
next
  case (Cons c cs)
  show ?case
  proof (cases "call Native s c")
    case None
    with Cons.prems show ?thesis by simp
  next
    case (Some x)
    show ?thesis
    proof (cases x)
      case (Inl f)
      with Some Cons.prems show ?thesis by simp
    next
      case (Inr p)
      obtain r s' where p: "p = (r, s')" by (cases p)
      have c: "call Native s c = Some (Inr (r, s'))" using Some Inr p by simp
      have le: "s_NextKey s \<le> s_NextKey s'" by (rule call_Native_effect(1) [OF c])
      from Cons.prems c have "h \<in> set (handles (r # fst (run Native s' cs)))"
        by (simp split: prod.splits)
      then consider "r = Handle h" | "h \<in> set (handles (fst (run Native s' cs)))"
        by (cases r) auto
      then show ?thesis
      proof cases
        case 1
        from call_Native_effect(3) [OF c 1] show ?thesis by simp
      next
        case 2
        from Cons.IH [OF 2] le show ?thesis by simp
      qed
    qed
  qed
qed

lemma run_handles_sorted: "sorted_wrt (<) (handles (fst (run Native s ops)))"
proof (induction ops arbitrary: s)
  case Nil
  then show ?case by simp
next
  case (Cons c cs)
  show ?case
  proof (cases "call Native s c")
    case None
    then show ?thesis by simp
  next
    case (Some x)
    show ?thesis
    proof (cases x)
      case (Inl f)
      with Some show ?thesis by simp
    next
      case (Inr p)
      obtain r s' where p: "p = (r, s')" by (cases p)
      have c: "call Native s c = Some (Inr (r, s'))" using Some Inr p by simp
      have eq: "handles (fst (run Native s (c # cs))) = handles (r # fst (run Native s' cs))"
        using c by (simp split: prod.splits)
      show ?thesis
      proof (cases r)
        case (Handle h)
        from call_Native_effect(3) [OF c Handle] have "h = s_NextKey s'" by simp
        with run_handles_above [of _ s' cs] have "\<forall>h' \<in> set (handles (fst (run Native s' cs))). h < h'"
          by blast
        with Cons.IH [of s'] eq Handle show ?thesis by simp
      next
        case (Flag b)
        with Cons.IH [of s'] eq show ?thesis by simp
      next
        case Void
        with Cons.IH [of s'] eq show ?thesis by simp
      qed
    qed
  qed
qed

lemma run_keys_issued:
  "keys_issued s \<Longrightarrow> snd (run Native s ops) = Some (Inr s') \<Longrightarrow> keys_issued s' \<and> s_NextKey s \<le> s_NextKey s'"
proof (induction ops arbitrary: s)
  case Nil
  then show ?case by simp
next
  case (Cons c cs)
  from Cons.prems(2) obtain r s1 where c: "call Native s c = Some (Inr (r, s1))"
    and rest: "snd (run Native s1 cs) = Some (Inr s')"
    by (auto split: option.splits sum.splits prod.splits)
  from call_Native_keys_issued [OF c Cons.prems(1)] have "keys_issued s1" .
  from Cons.IH [OF this rest] call_Native_effect(1) [OF c] show ?case by simp
qed

lemma run_append:
  "snd (run t s pre) = Some (Inr s') \<Longrightarrow>
   run t s (pre @ post) = (fst (run t s pre) @ fst (run t s' post), snd (run t s' post))"
proof (induction pre arbitrary: s)
  case Nil
  then show ?case by simp
next
  case (Cons c cs)
  from Cons.prems obtain r s1 where c: "call t s c = Some (Inr (r, s1))"
    and rest: "snd (run t s1 cs) = Some (Inr s')"
    by (auto split: option.splits sum.splits prod.splits)
  from Cons.IH [OF rest] c show ?case by (simp split: prod.splits)
qed

lemma handles_append: "handles (xs @ ys) = handles xs @ handles ys"
  by (induction xs rule: handles.induct) simp_all

lemma keys_issued_initial: "keys_issued initial_registry"
  by (simp add: keys_issued_def initial_registry_def)


lemma run_lifecycle_completes:
  "list_all lifecycle_only ops \<Longrightarrow> s_NextKey s + int (creates ops) \<le> INT64_MAX \<Longrightarrow>
   \<exists>s'. snd (run Native s ops) = Some (Inr s') \<and> length (handles (fst (run Native s ops))) = creates ops"
proof (induction ops arbitrary: s)
  case Nil
  then show ?case by simp
next
  case (Cons c cs)
  show ?case
  proof (cases c)
    case Create
    let ?s1 = "\<lparr>s_SpinLockMap = emplace (s_SpinLockMap s) (s_NextKey s + 1), s_NextKey = s_NextKey s + 1\<rparr>"
    from Cons.prems(2) Create have ne: "s_NextKey s \<noteq> INT64_MAX" by simp
    then have c: "call Native s c = Some (Inr (Handle (s_NextKey s + 1), ?s1))"
      using Create by (simp add: call_def CreateSpinLock_def CreateSpinLockImpl_def Let_def)
    from Cons.prems Create have "list_all lifecycle_only cs" "s_NextKey ?s1 + int (creates cs) \<le> INT64_MAX"
      by simp_all
    from Cons.IH [OF this] c Create show ?thesis by (auto split: prod.splits)
  next
    case (Destroy h)
    have c: "call Native s c = Some (Inr (Void, DestroySpinLockImpl s h))"
      using Destroy by (simp add: call_def DestroySpinLock_def)
    from Cons.prems Destroy have "list_all lifecycle_only cs"
      "s_NextKey (DestroySpinLockImpl s h) + int (creates cs) \<le> INT64_MAX"
      by (simp_all add: DestroySpinLockImpl_def)
    from Cons.IH [OF this] c Destroy show ?thesis by (auto split: prod.splits)
  qed (use Cons.prems in simp_all)
qed

text \<open>
  Claim C1. In every sequence of calls, the handles that \<open>CreateSpinLock\<close> returns are
  strictly increasing, hence pairwise distinct. When the run has reached a registry \<open>s\<close>
  in which the token \<open>h\<close> is live and \<open>h\<close> is destroyed there, the handles of the whole
  run are those returned before followed by those returned after, and \<open>h\<close> is not among
  the latter. The increment of \<open>s_NextKey\<close> overflows only at the call number
  \<open>INT64_MAX\<close>: a sequence of creations and destructions with fewer creations than that
  runs to its end and returns one handle for each creation.
\<close>

theorem CreateSpinLock_handles_increasing_never_reused:
  "sorted_wrt (<) (handles (fst (run Native initial_registry ops))) \<and>
   distinct (handles (fst (run Native initial_registry ops))) \<and>
   (snd (run Native initial_registry pre) = Some (Inr s) \<and> s_SpinLockMap s h \<noteq> None \<longrightarrow>
      handles (fst (run Native initial_registry (pre @ Destroy h # post))) =
        handles (fst (run Native initial_registry pre)) @
        handles (fst (run Native (DestroySpinLock Native s h) post)) \<and>
      h \<notin> set (handles (fst (run Native (DestroySpinLock Native s h) post)))) \<and>
   (list_all lifecycle_only ops \<and> int (creates ops) < INT64_MAX \<longrightarrow>
      (\<exists>s'. snd (run Native initial_registry ops) = Some (Inr s')) \<and>
      length (handles (fst (run Native initial_registry ops))) = creates ops)"
proof (intro conjI impI)
  show sorted: "sorted_wrt (<) (handles (fst (run Native initial_registry ops)))"
    by (rule run_handles_sorted)
  then show "distinct (handles (fst (run Native initial_registry ops)))"
    by (simp add: strict_sorted_iff)
next
  assume live: "snd (run Native initial_registry pre) = Some (Inr s) \<and> s_SpinLockMap s h \<noteq> None"
  then have pre: "snd (run Native initial_registry pre) = Some (Inr s)" by simp
  have step: "run Native s (Destroy h # post) =
      (Void # fst (run Native (DestroySpinLock Native s h) post),
       snd (run Native (DestroySpinLock Native s h) post))"
    by (simp add: call_def split: prod.splits)
  show "handles (fst (run Native initial_registry (pre @ Destroy h # post))) =
        handles (fst (run Native initial_registry pre)) @
        handles (fst (run Native (DestroySpinLock Native s h) post))"
    unfolding run_append [OF pre] step by (simp add: handles_append)
  from run_keys_issued [OF keys_issued_initial pre] live have "h \<le> s_NextKey s"
    by (simp add: keys_issued_def)
  then have "h \<le> s_NextKey (DestroySpinLock Native s h)"
    by (simp add: DestroySpinLock_def DestroySpinLockImpl_def)
  with run_handles_above [of h "DestroySpinLock Native s h" post]
  show "h \<notin> set (handles (fst (run Native (DestroySpinLock Native s h) post)))"
    by auto
next
  assume a: "list_all lifecycle_only ops \<and> int (creates ops) < INT64_MAX"
  then have "s_NextKey initial_registry + int (creates ops) \<le> INT64_MAX"
    by (simp add: initial_registry_def)
  from run_lifecycle_completes [OF _ this] a
  show "\<exists>s'. snd (run Native initial_registry ops) = Some (Inr s')"
    and "length (handles (fst (run Native initial_registry ops))) = creates ops"
    by blast+
qed

theorem CreateSpinLock_handles_increasing_never_reused_witness:
  "handles (fst (run Native initial_registry [Create, Create, Destroy 2, Create])) = [2, 3, 4] \<and>
   sorted_wrt (<) (handles (fst (run Native initial_registry [Create, Create, Destroy 2, Create]))) \<and>
   distinct (handles (fst (run Native initial_registry [Create, Create, Destroy 2, Create]))) \<and>
   snd (run Native initial_registry [Create, Create]) =
     Some (Inr \<lparr>s_SpinLockMap = [2 \<mapsto> False, 3 \<mapsto> False], s_NextKey = 3\<rparr>) \<and>
   2 \<notin> set (handles (fst (run Native
     (DestroySpinLock Native \<lparr>s_SpinLockMap = [2 \<mapsto> False, 3 \<mapsto> False], s_NextKey = 3\<rparr> 2) [Create]))) \<and>
   list_all lifecycle_only [Create, Create, Destroy 2, Create] \<and>
   int (creates [Create, Create, Destroy 2, Create]) < INT64_MAX \<and>
   length (handles (fst (run Native initial_registry [Create, Create, Destroy 2, Create]))) = 3"
  using CreateSpinLock_handles_increasing_never_reused
    [of "[Create, Create, Destroy 2, Create]" "[Create, Create]"
        "\<lparr>s_SpinLockMap = [2 \<mapsto> False, 3 \<mapsto> False], s_NextKey = 3\<rparr>" 2 "[Create]"]
  by (simp add: call_def CreateSpinLock_def CreateSpinLockImpl_def DestroySpinLock_def
      DestroySpinLockImpl_def initial_registry_def INT64_MAX_def emplace_def)

text \<open>
  Claim C2. When the handle \<open>h\<close> is not a key of the map, because it was never issued or
  because it has been destroyed, each of \<open>Lock\<close>, \<open>TryLock\<close> and \<open>Unlock\<close> ends in
  \<^verbatim>\<open>std::terminate()\<close>: none of them returns a value, and \<open>Lock\<close> does not spin.
\<close>

theorem lock_operations_terminate_on_absent_handle:
  "s_SpinLockMap s h = None \<Longrightarrow>
     Lock Native s h = Some (Inl Terminated) \<and>
     TryLock Native s h = Inl Terminated \<and>
     Unlock Native s h = Inl Terminated \<and>
     Lock Native (DestroySpinLock Native s' h) h = Some (Inl Terminated) \<and>
     TryLock Native (DestroySpinLock Native s' h) h = Inl Terminated \<and>
     Unlock Native (DestroySpinLock Native s' h) h = Inl Terminated"
  by (simp add: Lock_def TryLock_def Unlock_def TryLockImpl_def UnlockImpl_def LockImpl_absent
      RetrieveLockFromHandle_def DestroySpinLock_def DestroySpinLockImpl_def)

theorem lock_operations_terminate_on_absent_handle_witness:
  "s_SpinLockMap initial_registry 2 = None \<and>
   Lock Native initial_registry 2 = Some (Inl Terminated) \<and>
   TryLock Native initial_registry 2 = Inl Terminated \<and>
   Unlock Native initial_registry 2 = Inl Terminated \<and>
   DestroySpinLock Native \<lparr>s_SpinLockMap = [2 \<mapsto> False], s_NextKey = 2\<rparr> 2 =
     \<lparr>s_SpinLockMap = Map.empty, s_NextKey = 2\<rparr> \<and>
   Lock Native \<lparr>s_SpinLockMap = Map.empty, s_NextKey = 2\<rparr> 2 = Some (Inl Terminated) \<and>
   TryLock Native \<lparr>s_SpinLockMap = Map.empty, s_NextKey = 2\<rparr> 2 = Inl Terminated \<and>
   Unlock Native \<lparr>s_SpinLockMap = Map.empty, s_NextKey = 2\<rparr> 2 = Inl Terminated"
  using lock_operations_terminate_on_absent_handle
    [of initial_registry 2 "\<lparr>s_SpinLockMap = [2 \<mapsto> False], s_NextKey = 2\<rparr>"]
  by (simp add: initial_registry_def DestroySpinLock_def DestroySpinLockImpl_def)

lemma TryLock_Native:
  "s_SpinLockMap s h = Some b \<Longrightarrow>
   TryLock Native s h = Inr (\<not> b, s\<lparr>s_SpinLockMap := (s_SpinLockMap s)(h \<mapsto> True)\<rparr>)"
  by (simp add: TryLock_def TryLockImpl_def RetrieveLockFromHandle_def test_and_set_def)

lemma Unlock_Native:
  "s_SpinLockMap s h = Some b \<Longrightarrow>
   Unlock Native s h = Inr (s\<lparr>s_SpinLockMap := (s_SpinLockMap s)(h \<mapsto> False)\<rparr>)"
  by (simp add: Unlock_def UnlockImpl_def RetrieveLockFromHandle_def clear_def)

lemma Lock_Native_clear:
  "s_SpinLockMap s h = Some False \<Longrightarrow>
   Lock Native s h = Some (Inr (True, s\<lparr>s_SpinLockMap := (s_SpinLockMap s)(h \<mapsto> True)\<rparr>))"
  by (simp add: Lock_def LockImpl_clear)

lemma Create_fresh_clear:
  assumes "keys_issued s" and "CreateSpinLock Native s = Inr (h, s1)"
  shows "s_SpinLockMap s1 h = Some False"
proof -
  from assms(2) have h: "h = s_NextKey s + 1"
    and s1: "s1 = \<lparr>s_SpinLockMap = emplace (s_SpinLockMap s) h, s_NextKey = h\<rparr>"
    by (auto simp: CreateSpinLock_def CreateSpinLockImpl_def Let_def split: if_splits)
  from assms(1) have "s_SpinLockMap s h = None"
    unfolding keys_issued_def h by (metis add_le_same_cancel1 not_one_le_zero)
  then show ?thesis by (simp add: s1 emplace_def)
qed

text \<open>
  Claim C3. Let \<open>s\<close> be a registry that some sequence of calls reaches from the initial
  one, and let \<open>CreateSpinLock\<close> return the handle \<open>h\<close> there. Then the new token is
  clear; the first \<open>TryLock\<close> on \<open>h\<close> returns true, the second one false, and after
  \<open>Unlock\<close> the next one returns true again; the same holds when the token is taken by
  \<open>Lock\<close> first. In any registry, \<open>TryLock\<close> on a set flag returns false, and \<open>TryLock\<close>
  after \<open>Unlock\<close> returns true.
\<close>

theorem fresh_token_trylock_unlock_cycle:
  "(snd (run Native initial_registry ops) = Some (Inr s) \<and> CreateSpinLock Native s = Inr (h, s1) \<longrightarrow>
      s_SpinLockMap s1 h = Some False \<and>
      fst (run Native s1 [DoTryLock h, DoTryLock h, DoUnlock h, DoTryLock h]) =
        [Flag True, Flag False, Void, Flag True] \<and>
      fst (run Native s1 [DoLock h, DoTryLock h, DoUnlock h, DoTryLock h]) =
        [Flag True, Flag False, Void, Flag True]) \<and>
   (s_SpinLockMap u k = Some True \<longrightarrow> (\<exists>u'. TryLock Native u k = Inr (False, u'))) \<and>
   (s_SpinLockMap u k = Some b \<longrightarrow>
      (\<exists>u' u''. Unlock Native u k = Inr u' \<and> TryLock Native u' k = Inr (True, u'')))"
proof (intro conjI impI)
  assume a: "snd (run Native initial_registry ops) = Some (Inr s) \<and> CreateSpinLock Native s = Inr (h, s1)"
  with run_keys_issued [OF keys_issued_initial] have "keys_issued s" by blast
  with a show fresh: "s_SpinLockMap s1 h = Some False" by (blast intro: Create_fresh_clear)
  show "fst (run Native s1 [DoTryLock h, DoTryLock h, DoUnlock h, DoTryLock h]) =
        [Flag True, Flag False, Void, Flag True]"
    by (simp add: call_def TryLock_Native [where b = False] TryLock_Native [where b = True]
        Unlock_Native [where b = True] fresh)
  show "fst (run Native s1 [DoLock h, DoTryLock h, DoUnlock h, DoTryLock h]) =
        [Flag True, Flag False, Void, Flag True]"
    by (simp add: call_def TryLock_Native [where b = False] TryLock_Native [where b = True]
        Unlock_Native [where b = True] Lock_Native_clear fresh)
next
  assume "s_SpinLockMap u k = Some True"
  then show "\<exists>u'. TryLock Native u k = Inr (False, u')" by (simp add: TryLock_Native)
next
  assume "s_SpinLockMap u k = Some b"
  then show "\<exists>u' u''. Unlock Native u k = Inr u' \<and> TryLock Native u' k = Inr (True, u'')"
    by (simp add: Unlock_Native TryLock_Native [where b = False])
qed

theorem fresh_token_trylock_unlock_cycle_witness:
  "snd (run Native initial_registry [Create, Destroy 2]) =
     Some (Inr \<lparr>s_SpinLockMap = Map.empty, s_NextKey = 2\<rparr>) \<and>
   CreateSpinLock Native \<lparr>s_SpinLockMap = Map.empty, s_NextKey = 2\<rparr> =
     Inr (3, \<lparr>s_SpinLockMap = [3 \<mapsto> False], s_NextKey = 3\<rparr>) \<and>
   fst (run Native \<lparr>s_SpinLockMap = [3 \<mapsto> False], s_NextKey = 3\<rparr>
          [DoTryLock 3, DoTryLock 3, DoUnlock 3, DoTryLock 3]) =
     [Flag True, Flag False, Void, Flag True] \<and>
   fst (run Native \<lparr>s_SpinLockMap = [3 \<mapsto> False], s_NextKey = 3\<rparr>
          [DoLock 3, DoTryLock 3, DoUnlock 3, DoTryLock 3]) =
     [Flag True, Flag False, Void, Flag True] \<and>
   s_SpinLockMap \<lparr>s_SpinLockMap = [3 \<mapsto> True], s_NextKey = 3\<rparr> 3 = Some True \<and>
   (\<exists>u'. TryLock Native \<lparr>s_SpinLockMap = [3 \<mapsto> True], s_NextKey = 3\<rparr> 3 = Inr (False, u')) \<and>
   (\<exists>u' u''. Unlock Native \<lparr>s_SpinLockMap = [3 \<mapsto> True], s_NextKey = 3\<rparr> 3 = Inr u' \<and>
      TryLock Native u' 3 = Inr (True, u''))"
  using fresh_token_trylock_unlock_cycle
    [of "[Create, Destroy 2]" "\<lparr>s_SpinLockMap = Map.empty, s_NextKey = 2\<rparr>" 3
        "\<lparr>s_SpinLockMap = [3 \<mapsto> False], s_NextKey = 3\<rparr>"
        "\<lparr>s_SpinLockMap = [3 \<mapsto> True], s_NextKey = 3\<rparr>" 3 True]
  by (simp add: call_def CreateSpinLock_def CreateSpinLockImpl_def DestroySpinLock_def
      DestroySpinLockImpl_def initial_registry_def INT64_MAX_def emplace_def)

text \<open>
  Claim C4, as amended. \<open>DestroySpinLock\<close> does not look the handle up: it erases the key.
  On a handle that is not in the map, never issued or destroyed before, it returns and
  leaves the registry as it was. Only \<open>Lock\<close>, \<open>TryLock\<close> and \<open>Unlock\<close> end the
  process on such a handle.
\<close>

theorem DestroySpinLock_absent_handle_returns:
  "(s_SpinLockMap s h = None \<longrightarrow>
      call Native s (Destroy h) = Some (Inr (Void, s)) \<and> DestroySpinLock Native s h = s) \<and>
   call Native (DestroySpinLock Native s' h') (Destroy h') =
     Some (Inr (Void, DestroySpinLock Native s' h'))"
  by (simp add: call_def DestroySpinLock_def DestroySpinLockImpl_def fun_upd_idem)

text \<open>
  The claim as stated fails: destroying the handle 7, which was never issued, returns in
  the initial registry, and so does destroying the handle 2 a second time.
\<close>

theorem DestroySpinLock_absent_handle_counterexample:
  "s_SpinLockMap initial_registry 7 = None \<and>
   call Native initial_registry (Destroy 7) = Some (Inr (Void, initial_registry)) \<and>
   call Native initial_registry (Destroy 7) \<noteq> Some (Inl Terminated) \<and>
   run Native initial_registry [Create, Destroy 2, Destroy 2] =
     ([Handle 2, Void, Void], Some (Inr \<lparr>s_SpinLockMap = Map.empty, s_NextKey = 2\<rparr>))"
  by (simp add: call_def CreateSpinLock_def CreateSpinLockImpl_def DestroySpinLock_def
      DestroySpinLockImpl_def initial_registry_def INT64_MAX_def emplace_def)

theorem DestroySpinLock_absent_handle_witness:
  "s_SpinLockMap \<lparr>s_SpinLockMap = [2 \<mapsto> True], s_NextKey = 2\<rparr> 5 = None \<and>
   call Native \<lparr>s_SpinLockMap = [2 \<mapsto> True], s_NextKey = 2\<rparr> (Destroy 5) =
     Some (Inr (Void, \<lparr>s_SpinLockMap = [2 \<mapsto> True], s_NextKey = 2\<rparr>)) \<and>
   DestroySpinLock Native \<lparr>s_SpinLockMap = [2 \<mapsto> True], s_NextKey = 2\<rparr> 2 =
     \<lparr>s_SpinLockMap = Map.empty, s_NextKey = 2\<rparr> \<and>
   call Native (DestroySpinLock Native \<lparr>s_SpinLockMap = [2 \<mapsto> True], s_NextKey = 2\<rparr> 2) (Destroy 2) =
     Some (Inr (Void, \<lparr>s_SpinLockMap = Map.empty, s_NextKey = 2\<rparr>))"
  using DestroySpinLock_absent_handle_returns
    [of "\<lparr>s_SpinLockMap = [2 \<mapsto> True], s_NextKey = 2\<rparr>" 5
        "\<lparr>s_SpinLockMap = [2 \<mapsto> True], s_NextKey = 2\<rparr>" 2]
  by (simp add: DestroySpinLock_def DestroySpinLockImpl_def)

text \<open>
  Claim C7. When \<open>h\<close> is a key of the map, \<open>Unlock\<close> returns, whatever the flag was;
  afterwards the flag of \<open>h\<close> is clear, the map has the same keys, every other flag has
  the value it had, and the counter is unchanged.
\<close>

theorem Unlock_clears_only_its_token:
  "s_SpinLockMap s h = Some b \<longrightarrow>
     (\<exists>s'. Unlock Native s h = Inr s' \<and>
        s_SpinLockMap s' h = Some False \<and>
        dom (s_SpinLockMap s') = dom (s_SpinLockMap s) \<and>
        (\<forall>k. k \<noteq> h \<longrightarrow> s_SpinLockMap s' k = s_SpinLockMap s k) \<and>
        s_NextKey s' = s_NextKey s)"
  by (auto simp: Unlock_Native)

theorem Unlock_clears_only_its_token_witness:
  "s_SpinLockMap \<lparr>s_SpinLockMap = [2 \<mapsto> True, 3 \<mapsto> True], s_NextKey = 3\<rparr> 3 = Some True \<and>
   Unlock Native \<lparr>s_SpinLockMap = [2 \<mapsto> True, 3 \<mapsto> True], s_NextKey = 3\<rparr> 3 =
     Inr \<lparr>s_SpinLockMap = [2 \<mapsto> True, 3 \<mapsto> False], s_NextKey = 3\<rparr> \<and>
   (\<exists>s'. Unlock Native \<lparr>s_SpinLockMap = [2 \<mapsto> True, 3 \<mapsto> True], s_NextKey = 3\<rparr> 3 = Inr s' \<and>
      s_SpinLockMap s' 3 = Some False \<and> s_SpinLockMap s' 2 = Some True \<and> s_NextKey s' = 3)"
  using Unlock_clears_only_its_token
    [of "\<lparr>s_SpinLockMap = [2 \<mapsto> True, 3 \<mapsto> True], s_NextKey = 3\<rparr>" 3 True]
  by (simp add: Unlock_def UnlockImpl_def RetrieveLockFromHandle_def clear_def)

section \<open>Properties of the console writer\<close>

lemma written_fputc: "written (fputc d out c) = written out @ [c]"
  by (simp add: written_def fputc_def Let_def del: take_append drop_append)

lemma written_fputs: "written (fputs d out bs) = written out @ bs"
  unfolding fputs_def by (induction bs arbitrary: out) (simp_all add: written_fputc)

lemma transmitted_Flush: "transmitted (Flush out) = written out"
  by (simp add: written_def Flush_def fflush_def)

lemma written_BeginBatchConsoleWrite: "written (BeginBatchConsoleWrite out) = written out"
  by (simp add: written_def BeginBatchConsoleWrite_def setvbuf_def fflush_def)

lemma unbuffered_fputc:
  "buf_mode out = IONBF \<Longrightarrow> buffered out = [] \<Longrightarrow>
   buf_mode (fputc d out c) = IONBF \<and> buffered (fputc d out c) = []"
  by (simp add: fputc_def Let_def)

lemma unbuffered_fputs:
  "buf_mode out = IONBF \<Longrightarrow> buffered out = [] \<Longrightarrow>
   buf_mode (fputs d out bs) = IONBF \<and> buffered (fputs d out bs) = []"
  unfolding fputs_def by (induction bs arbitrary: out) (simp_all add: unbuffered_fputc)

lemma format_s_readable:
  "0 \<le> numBytes \<Longrightarrow> nat numBytes \<le> length byteBuffer \<Longrightarrow>
   format_s numBytes byteBuffer = Inr (takeWhile (\<lambda>c. c \<noteq> 0) (take (nat numBytes) byteBuffer))"
  by (simp add: format_s_def Let_def)

lemma console_writes_same_output:
  "written out1 = written out2 \<Longrightarrow>
   rel_sum (=) (\<lambda>a b. written a = written b) (console_writes d1 out1 ws) (console_writes d2 out2 ws)"
proof (induction ws arbitrary: out1 out2)
  case Nil
  then show ?case by simp
next
  case (Cons w ws)
  obtain byteBuffer numBytes newLine where w: "w = (byteBuffer, numBytes, newLine)"
    by (cases w)
  show ?case
  proof (cases "format_s numBytes byteBuffer")
    case (Inl f)
    then show ?thesis by (simp add: w ConsoleWrite_def)
  next
    case (Inr str)
    let ?bs = "str @ (if newLine \<noteq> 0 then [10] else [])"
    have "written (fputs d1 out1 ?bs) = written (fputs d2 out2 ?bs)"
      using Cons.prems by (simp only: written_fputs)
    from Cons.IH [OF this] Inr show ?thesis by (simp add: w ConsoleWrite_def)
  qed
qed

lemma console_writes_unbuffered:
  "buf_mode out = IONBF \<Longrightarrow> buffered out = [] \<Longrightarrow> console_writes d out ws = Inr out' \<Longrightarrow>
   buf_mode out' = IONBF \<and> buffered out' = []"
proof (induction ws arbitrary: out)
  case Nil
  then show ?case by simp
next
  case (Cons w ws)
  obtain byteBuffer numBytes newLine where w: "w = (byteBuffer, numBytes, newLine)"
    by (cases w)
  from Cons.prems(3) obtain str where
    rest: "console_writes d (fputs d out (str @ (if newLine \<noteq> 0 then [10] else []))) ws = Inr out'"
    by (auto simp: w ConsoleWrite_def split: sum.splits)
  from unbuffered_fputs [OF Cons.prems(1,2)] Cons.IH [OF _ _ rest] show ?case by blast
qed

text \<open>
  Claim C9. For every sequence of \<open>ConsoleWrite\<close> calls, every stream and every way in
  which the library drains its buffer: the bytes transmitted after
  \<open>BeginBatchConsoleWrite\<close>, the calls and \<open>Flush\<close> are the bytes transmitted by the same
  calls without \<open>BeginBatchConsoleWrite\<close>, once that stream is flushed; and both runs end
  in the same fault when a call reads past its buffer. On an unbuffered stream that holds
  nothing, the calls alone have transmitted these bytes.
\<close>

theorem batched_output_equals_unbatched:
  "map_sum id (\<lambda>batched. transmitted (Flush batched))
      (console_writes d (BeginBatchConsoleWrite out) ws) =
   map_sum id (\<lambda>plain. transmitted (Flush plain)) (console_writes d out ws) \<and>
   (buf_mode out = IONBF \<and> buffered out = [] \<longrightarrow>
      map_sum id (\<lambda>batched. transmitted (Flush batched))
        (console_writes d (BeginBatchConsoleWrite out) ws) =
      map_sum id transmitted (console_writes d out ws))"
proof -
  have rel: "rel_sum (=) (\<lambda>a b. written a = written b)
      (console_writes d (BeginBatchConsoleWrite out) ws) (console_writes d out ws)"
    by (rule console_writes_same_output) (rule written_BeginBatchConsoleWrite)
  then have eq: "map_sum id (\<lambda>batched. transmitted (Flush batched))
      (console_writes d (BeginBatchConsoleWrite out) ws) =
    map_sum id (\<lambda>plain. transmitted (Flush plain)) (console_writes d out ws)"
    by (cases "console_writes d (BeginBatchConsoleWrite out) ws"; cases "console_writes d out ws")
       (simp_all add: transmitted_Flush)
  have "map_sum id (\<lambda>plain. transmitted (Flush plain)) (console_writes d out ws) =
      map_sum id transmitted (console_writes d out ws)"
    if "buf_mode out = IONBF" "buffered out = []"
  proof (cases "console_writes d out ws")
    case (Inl f)
    then show ?thesis by simp
  next
    case (Inr plain)
    from console_writes_unbuffered [OF that Inr] have "buffered plain = []" by simp
    with Inr show ?thesis by (simp add: transmitted_Flush written_def)
  qed
  with eq show ?thesis by simp
qed

theorem batched_output_equals_unbatched_witness:
  "buf_mode \<lparr>buf_mode = IONBF, buf_size = 0, buffered = [], transmitted = []\<rparr> = IONBF \<and>
   console_writes stdio_drain
     (BeginBatchConsoleWrite \<lparr>buf_mode = IONBF, buf_size = 0, buffered = [], transmitted = []\<rparr>)
     [([104, 105], 2, 1), ([121, 111], 2, 0)] =
     Inr \<lparr>buf_mode = IOFBF, buf_size = 8192, buffered = [104, 105, 10, 121, 111], transmitted = []\<rparr> \<and>
   console_writes stdio_drain \<lparr>buf_mode = IONBF, buf_size = 0, buffered = [], transmitted = []\<rparr>
     [([104, 105], 2, 1), ([121, 111], 2, 0)] =
     Inr \<lparr>buf_mode = IONBF, buf_size = 0, buffered = [], transmitted = [104, 105, 10, 121, 111]\<rparr> \<and>
   Flush \<lparr>buf_mode = IOFBF, buf_size = 8192, buffered = [104, 105, 10, 121, 111], transmitted = []\<rparr> =
     \<lparr>buf_mode = IOFBF, buf_size = 8192, buffered = [], transmitted = [104, 105, 10, 121, 111]\<rparr>"
  using batched_output_equals_unbatched
    [of stdio_drain "\<lparr>buf_mode = IONBF, buf_size = 0, buffered = [], transmitted = []\<rparr>"
        "[([104, 105], 2, 1), ([121, 111], 2, 0)]"]
  by (simp add: ConsoleWrite_def format_s_def fputs_def fputc_def stdio_drain_def
      BeginBatchConsoleWrite_def setvbuf_def fflush_def Flush_def)

text \<open>
  Claim C6, as amended. With \<open>numBytes\<close> bytes readable at \<open>byteBuffer\<close>,
  \<open>ConsoleWrite\<close> returns and has written the first \<open>numBytes\<close> bytes up to, and without,
  the first zero byte among them, and then one new-line character when the flag is not
  zero and nothing otherwise. When none of these bytes is zero, it has written all
  \<open>numBytes\<close> of them.
\<close>

theorem ConsoleWrite_stops_at_zero_byte:
  "0 \<le> numBytes \<and> nat numBytes \<le> length byteBuffer \<longrightarrow>
     (\<exists>out'. ConsoleWrite d out byteBuffer numBytes newLine = Inr out' \<and>
        written out' = written out @ takeWhile (\<lambda>c. c \<noteq> 0) (take (nat numBytes) byteBuffer) @
          (if newLine \<noteq> 0 then [10] else []) \<and>
        (0 \<notin> set (take (nat numBytes) byteBuffer) \<longrightarrow>
           written out' = written out @ take (nat numBytes) byteBuffer @
             (if newLine \<noteq> 0 then [10] else [])))"
  by (auto simp: ConsoleWrite_def format_s_readable written_fputs
      intro!: takeWhile_eq_all_conv [THEN iffD2])

text \<open>
  The claim as stated fails on a buffer with a zero byte: of the three bytes 104, 0, 105
  only the first one is written.
\<close>

theorem ConsoleWrite_zero_byte_counterexample:
  "ConsoleWrite stdio_drain \<lparr>buf_mode = IONBF, buf_size = 0, buffered = [], transmitted = []\<rparr>
     [104, 0, 105] 3 0 =
   Inr \<lparr>buf_mode = IONBF, buf_size = 0, buffered = [], transmitted = [104]\<rparr> \<and>
   [104] \<noteq> take 3 [104, 0, 105 :: byte]"
  by (simp add: ConsoleWrite_def format_s_def fputs_def fputc_def)

theorem ConsoleWrite_stops_at_zero_byte_witness:
  "(0::int) \<le> 5 \<and> nat 5 \<le> length [104, 101, 108, 108, 111 :: byte] \<and>
   0 \<notin> set (take (nat 5) [104, 101, 108, 108, 111 :: byte]) \<and>
   ConsoleWrite stdio_drain \<lparr>buf_mode = IOLBF, buf_size = 4, buffered = [], transmitted = []\<rparr>
     [104, 101, 108, 108, 111] 5 1 =
   Inr \<lparr>buf_mode = IOLBF, buf_size = 4, buffered = [], transmitted = [104, 101, 108, 108, 111, 10]\<rparr> \<and>
   written \<lparr>buf_mode = IOLBF, buf_size = 4, buffered = [], transmitted = [104, 101, 108, 108, 111, 10]\<rparr>
     = [104, 101, 108, 108, 111, 10]"
  using ConsoleWrite_stops_at_zero_byte [of 5 "[104, 101, 108, 108, 111]" stdio_drain
    "\<lparr>buf_mode = IOLBF, buf_size = 4, buffered = [], transmitted = []\<rparr>" 1]
  by (simp add: ConsoleWrite_def format_s_def fputs_def fputc_def stdio_drain_def written_def)

section \<open>Properties of the time stamp formatter\<close>

lemma digits_chars: "set (digits n) \<subseteq> set ''0123456789''"
proof (induction n rule: digits.induct)
  case (1 n)
  show ?case
  proof (cases "n = 0")
    case True
    then show ?thesis by (simp add: digits.simps)
  next
    case False
    have "n mod 10 < length ''0123456789''" by simp
    then have "''0123456789'' ! (n mod 10) \<in> set ''0123456789''" by (rule nth_mem)
    with 1 [OF False] False show ?thesis by (subst digits.simps) simp
  qed
qed


lemma print_d_chars: "set (print_d p v) \<subseteq> set ''0123456789-''"
proof -
  have "set ''0123456789'' \<subseteq> set ''0123456789-''" by simp
  with digits_chars have ds: "set (digits (nat \<bar>v\<bar>)) \<subseteq> set ''0123456789-''"
    by (rule order_trans)
  have z: "CHR ''0'' \<in> set ''0123456789-''" by simp
  have zs: "set (replicate k (CHR ''0'')) \<subseteq> set ''0123456789-''" for k
  proof -
    have "set (replicate k (CHR ''0'')) \<subseteq> {CHR ''0''}" by (simp add: set_replicate_conv_if)
    with z show ?thesis by blast
  qed
  have "CHR ''-'' \<in> set ''0123456789-''" by simp
  then have sg: "set (if v < 0 then ''-'' else []) \<subseteq> set ''0123456789-''"
    by (cases "v < 0") simp_all
  show ?thesis
    by (simp only: print_d_def Let_def set_append le_sup_iff ds zs sg simp_thms)
qed

lemma print_d_length: "p \<le> length (print_d p v)"
  by (simp add: print_d_def Let_def)

lemma filename_text_chars: "set (filename_text tptr) \<subseteq> set ''0123456789-''"
  by (simp only: filename_text_def set_append le_sup_iff print_d_chars simp_thms)

lemma timestamp_text_chars: "set (timestamp_text tptr ms) \<subseteq> set ''0123456789- :,''"
proof -
  have "set ''0123456789-'' \<subseteq> set ''0123456789- :,''" by simp
  then have d: "set (print_d p v) \<subseteq> set ''0123456789- :,''" for p v
    by (rule order_trans [OF print_d_chars])
  have s: "set ''-'' \<subseteq> set ''0123456789- :,''" "set '' '' \<subseteq> set ''0123456789- :,''"
    "set '':'' \<subseteq> set ''0123456789- :,''" "set '','' \<subseteq> set ''0123456789- :,''"
    by simp_all
  show ?thesis
    by (simp only: timestamp_text_def set_append le_sup_iff d s simp_thms)
qed

lemma filename_text_length: "12 \<le> length (filename_text tptr)"
  using print_d_length [of 4 "tm_year tptr + 1900"] print_d_length [of 2 "tm_mon tptr + 1"]
    print_d_length [of 2 "tm_mday tptr"] print_d_length [of 2 "tm_hour tptr"]
    print_d_length [of 2 "tm_min tptr"]
  by (simp add: filename_text_def)

lemma timestamp_text_length: "23 \<le> length (timestamp_text tptr ms)"
  using print_d_length [of 4 "tm_year tptr + 1900"] print_d_length [of 2 "tm_mon tptr + 1"]
    print_d_length [of 2 "tm_mday tptr"] print_d_length [of 2 "tm_hour tptr"]
    print_d_length [of 2 "tm_min tptr"] print_d_length [of 2 "tm_sec tptr"] print_d_length [of 3 ms]
  by (simp add: timestamp_text_def)

lemma c_str_stored:
  "CHR 0x00 \<notin> set text \<Longrightarrow> c_str (text @ CHR 0x00 # rest) = text"
proof -
  assume "CHR 0x00 \<notin> set text"
  then have "\<And>x. x \<in> set text \<Longrightarrow> x \<noteq> CHR 0x00" by blast
  then show ?thesis by (simp add: c_str_def)
qed

lemma size_t_int: "0 \<le> i \<Longrightarrow> i \<le> INT_MAX \<Longrightarrow> size_t i = nat i"
  by (simp add: size_t_def INT_MAX_def)

lemma snprintf_fits:
  "snprintf buffer n text = Inr (len, buffer') \<Longrightarrow> length text < n \<Longrightarrow>
   len = int (length text) \<and> buffer' = text @ CHR 0x00 # drop (Suc (length text)) buffer"
  by (auto simp: snprintf_def Let_def split: if_splits)

lemma snprintf_truncates:
  "n \<le> length text \<Longrightarrow> n \<le> length buffer \<Longrightarrow>
   snprintf buffer n text =
     Inr (int (length text),
          (if n = 0 then buffer else take (n - 1) text @ CHR 0x00 # drop n buffer))"
  by (auto simp: snprintf_def Let_def)


lemma filename_text_no_NUL: "CHR 0x00 \<notin> set (filename_text tptr)"
proof -
  have "CHR 0x00 \<notin> set ''0123456789-''" by simp
  with filename_text_chars show ?thesis by blast
qed

lemma timestamp_text_no_NUL: "CHR 0x00 \<notin> set (timestamp_text tptr ms)"
proof -
  have "CHR 0x00 \<notin> set ''0123456789- :,''" by simp
  with timestamp_text_chars show ?thesis by blast
qed

lemma c_str_truncated:
  assumes "CHR 0x00 \<notin> set text"
  shows "c_str (take k text @ CHR 0x00 # rest) = take k text"
proof -
  from assms have "CHR 0x00 \<notin> set (take k text)" by (blast dest: in_set_takeD)
  then show ?thesis by (rule c_str_stored)
qed

lemma example_filename_text:
  "filename_text \<lparr>tm_sec = 5, tm_min = 4, tm_hour = 3, tm_mday = 2, tm_mon = 0, tm_year = 124\<rparr> =
   ''202401020304''"
  by code_simp

lemma example_timestamp_text:
  "timestamp_text \<lparr>tm_sec = 5, tm_min = 4, tm_hour = 3, tm_mday = 2, tm_mon = 0, tm_year = 124\<rparr> 7 =
   ''2024-01-02 03:04:05,007''"
  by code_simp

text \<open>
  Claim C8. When \<open>GetFormattedTimeStampStringForFileNameNative\<close> returns a length that is
  not zero and smaller than the buffer size, the string it leaves in the buffer is the
  whole text, of the length returned, and every character of it is a decimal digit or a
  minus sign: there is no colon and no space in it.
\<close>

theorem filename_timestamp_has_no_illegal_character:
  "GetFormattedTimeStampStringForFileNameNative localtime tsNano buffer bufferSize = Inr (len, buffer') \<and>
   len \<noteq> 0 \<and> len < bufferSize \<and> bufferSize \<le> INT_MAX \<longrightarrow>
     (\<exists>tptr. localtime (tsNano sdiv 1000000000) = Some tptr \<and> c_str buffer' = filename_text tptr) \<and>
     int (length (c_str buffer')) = len \<and>
     set (c_str buffer') \<subseteq> set ''0123456789-'' \<and>
     CHR '':'' \<notin> set (c_str buffer') \<and> CHR '' '' \<notin> set (c_str buffer')"
proof (intro impI)
  assume a: "GetFormattedTimeStampStringForFileNameNative localtime tsNano buffer bufferSize = Inr (len, buffer') \<and>
    len \<noteq> 0 \<and> len < bufferSize \<and> bufferSize \<le> INT_MAX"
  then obtain tptr len0 where lt: "localtime (tsNano sdiv 1000000000) = Some tptr"
    and sn: "snprintf buffer (size_t bufferSize) (filename_text tptr) = Inr (len0, buffer')"
    and len: "len = (if len0 < 0 then 0 else len0)"
    by (auto simp: GetFormattedTimeStampStringForFileNameNative_def Let_def
        split: option.splits sum.splits prod.splits)
  from sn have len0: "len0 = int (length (filename_text tptr))"
    by (auto simp: snprintf_def Let_def split: if_splits)
  with len have len': "len = int (length (filename_text tptr))" by simp
  from a len' have "0 \<le> bufferSize" "bufferSize \<le> INT_MAX" by simp_all
  then have "size_t bufferSize = nat bufferSize" by (rule size_t_int)
  moreover from a len' have "int (length (filename_text tptr)) < bufferSize" by simp
  ultimately have "length (filename_text tptr) < size_t bufferSize" by linarith
  from snprintf_fits [OF sn this]
  have "buffer' = filename_text tptr @ CHR 0x00 # drop (Suc (length (filename_text tptr))) buffer"
    by simp
  with c_str_stored [OF filename_text_no_NUL]
  have str: "c_str buffer' = filename_text tptr" by simp
  have colon: "CHR '':'' \<notin> set ''0123456789-''" and space: "CHR '' '' \<notin> set ''0123456789-''"
    by simp_all
  show "(\<exists>tptr. localtime (tsNano sdiv 1000000000) = Some tptr \<and> c_str buffer' = filename_text tptr) \<and>
     int (length (c_str buffer')) = len \<and>
     set (c_str buffer') \<subseteq> set ''0123456789-'' \<and>
     CHR '':'' \<notin> set (c_str buffer') \<and> CHR '' '' \<notin> set (c_str buffer')"
    unfolding str using lt len' filename_text_chars [of tptr] colon space by blast
qed

theorem filename_timestamp_has_no_illegal_character_witness:
  "GetFormattedTimeStampStringForFileNameNative
     (\<lambda>ts. Some \<lparr>tm_sec = 5, tm_min = 4, tm_hour = 3, tm_mday = 2, tm_mon = 0, tm_year = 124\<rparr>)
     7000000 ''xxxxxxxxxxxxxxxx'' 16 =
     Inr (12, ''202401020304'' @ CHR 0x00 # ''xxx'') \<and>
   (12::int) \<noteq> 0 \<and> (12::int) < 16 \<and> (16::int) \<le> INT_MAX \<and>
   c_str (''202401020304'' @ CHR 0x00 # ''xxx'') = ''202401020304'' \<and>
   CHR '':'' \<notin> set (c_str (''202401020304'' @ CHR 0x00 # ''xxx'')) \<and>
   CHR '' '' \<notin> set (c_str (''202401020304'' @ CHR 0x00 # ''xxx''))"
  using filename_timestamp_has_no_illegal_character
    [of "\<lambda>ts. Some \<lparr>tm_sec = 5, tm_min = 4, tm_hour = 3, tm_mday = 2, tm_mon = 0, tm_year = 124\<rparr>"
        7000000 "''xxxxxxxxxxxxxxxx''" 16 12 "''202401020304'' @ CHR 0x00 # ''xxx''"]
  by (simp add: GetFormattedTimeStampStringForFileNameNative_def example_filename_text
      snprintf_def size_t_def INT_MAX_def c_str_def)

lemma GetFormattedTimeStampString_truncates:
  assumes "localtime (tsNano sdiv 1000000000) = Some tptr"
    and "0 \<le> bufferSize" and "bufferSize \<le> INT_MAX" and "nat bufferSize \<le> length buffer"
    and "bufferSize < int (length (timestamp_text tptr (tsNano smod 1000000000 sdiv 1000000)))"
  shows "GetFormattedTimeStampString localtime tsNano buffer bufferSize =
     Inr (int (length (timestamp_text tptr (tsNano smod 1000000000 sdiv 1000000))),
          if bufferSize = 0 then buffer
          else take (nat bufferSize - 1) (timestamp_text tptr (tsNano smod 1000000000 sdiv 1000000)) @
               CHR 0x00 # drop (nat bufferSize) buffer)"
proof -
  have sz: "size_t bufferSize = nat bufferSize" using assms(2,3) by (rule size_t_int)
  have "nat bufferSize \<le> length (timestamp_text tptr (tsNano smod 1000000000 sdiv 1000000))"
    using assms(5) by simp
  from snprintf_truncates [OF this assms(4)] assms(1,2) show ?thesis
    by (simp add: GetFormattedTimeStampString_def Let_def sz)
qed

lemma GetFormattedTimeStampStringForFileNameNative_truncates:
  assumes "localtime (tsNano sdiv 1000000000) = Some tptr"
    and "0 \<le> bufferSize" and "bufferSize \<le> INT_MAX" and "nat bufferSize \<le> length buffer"
    and "bufferSize < int (length (filename_text tptr))"
  shows "GetFormattedTimeStampStringForFileNameNative localtime tsNano buffer bufferSize =
     Inr (int (length (filename_text tptr)),
          if bufferSize = 0 then buffer
          else take (nat bufferSize - 1) (filename_text tptr) @ CHR 0x00 # drop (nat bufferSize) buffer)"
proof -
  have sz: "size_t bufferSize = nat bufferSize" using assms(2,3) by (rule size_t_int)
  have "nat bufferSize \<le> length (filename_text tptr)"
    using assms(5) by simp
  from snprintf_truncates [OF this assms(4)] assms(1,2) show ?thesis
    by (simp add: GetFormattedTimeStampStringForFileNameNative_def Let_def sz)
qed

lemma drop_stored:
  "0 < n \<Longrightarrow> n \<le> length text \<Longrightarrow> drop n (take (n - 1) text @ c # rest) = rest"
  by (cases n) (simp_all add: min_def)

lemma untouched_after_truncation:
  assumes "0 \<le> bufferSize" and "bufferSize < int (length text)"
  shows "drop (nat bufferSize)
      (if bufferSize = 0 then buffer
       else take (nat bufferSize - 1) text @ CHR 0x00 # drop (nat bufferSize) buffer) =
    drop (nat bufferSize) buffer"
proof (cases "bufferSize = 0")
  case True
  then show ?thesis by simp
next
  case False
  with assms have "0 < nat bufferSize" "nat bufferSize \<le> length text" by simp_all
  from drop_stored [OF this] False show ?thesis by simp
qed

text \<open>
  Claim C10. Let \<^verbatim>\<open>localtime\<close> succeed, and let the buffer have \<open>bufferSize\<close> bytes,
  fewer than the text has characters. Then each of the two functions returns the length of
  the whole text, which is positive; the bytes of the buffer from \<open>bufferSize\<close> on are
  untouched; and for a positive \<open>bufferSize\<close> the string left in the buffer is the first
  \<open>bufferSize - 1\<close> characters of the text, shorter than the length returned.
\<close>

theorem truncated_timestamp_returns_full_length:
  "localtime (tsNano sdiv 1000000000) = Some tptr \<and>
   0 \<le> bufferSize \<and> bufferSize \<le> INT_MAX \<and> nat bufferSize \<le> length buffer \<longrightarrow>
     (bufferSize < int (length (timestamp_text tptr (tsNano smod 1000000000 sdiv 1000000))) \<longrightarrow>
        (\<exists>buffer'. GetFormattedTimeStampString localtime tsNano buffer bufferSize =
            Inr (int (length (timestamp_text tptr (tsNano smod 1000000000 sdiv 1000000))), buffer') \<and>
          0 < length (timestamp_text tptr (tsNano smod 1000000000 sdiv 1000000)) \<and>
          drop (nat bufferSize) buffer' = drop (nat bufferSize) buffer \<and>
          (0 < bufferSize \<longrightarrow>
             c_str buffer' =
               take (nat bufferSize - 1) (timestamp_text tptr (tsNano smod 1000000000 sdiv 1000000)) \<and>
             length (c_str buffer') <
               length (timestamp_text tptr (tsNano smod 1000000000 sdiv 1000000))))) \<and>
     (bufferSize < int (length (filename_text tptr)) \<longrightarrow>
        (\<exists>buffer'. GetFormattedTimeStampStringForFileNameNative localtime tsNano buffer bufferSize =
            Inr (int (length (filename_text tptr)), buffer') \<and>
          0 < length (filename_text tptr) \<and>
          drop (nat bufferSize) buffer' = drop (nat bufferSize) buffer \<and>
          (0 < bufferSize \<longrightarrow>
             c_str buffer' = take (nat bufferSize - 1) (filename_text tptr) \<and>
             length (c_str buffer') < length (filename_text tptr))))"
proof (intro impI conjI)
  assume a: "localtime (tsNano sdiv 1000000000) = Some tptr \<and>
    0 \<le> bufferSize \<and> bufferSize \<le> INT_MAX \<and> nat bufferSize \<le> length buffer"
  let ?text = "timestamp_text tptr (tsNano smod 1000000000 sdiv 1000000)"
  assume short: "bufferSize < int (length ?text)"
  let ?buffer' = "if bufferSize = 0 then buffer
    else take (nat bufferSize - 1) ?text @ CHR 0x00 # drop (nat bufferSize) buffer"
  from a short have call: "GetFormattedTimeStampString localtime tsNano buffer bufferSize =
      Inr (int (length ?text), ?buffer')"
    by (intro GetFormattedTimeStampString_truncates) simp_all
  have pos: "0 < length ?text" by (rule less_le_trans [OF _ timestamp_text_length]) simp
  have untouched: "drop (nat bufferSize) ?buffer' = drop (nat bufferSize) buffer"
    using a short by (intro untouched_after_truncation) simp_all
  have str: "c_str ?buffer' = take (nat bufferSize - 1) ?text \<and> length (c_str ?buffer') < length ?text"
    if "0 < bufferSize"
    using that short by (simp add: c_str_truncated [OF timestamp_text_no_NUL])
  from call pos untouched str
  show "\<exists>buffer'. GetFormattedTimeStampString localtime tsNano buffer bufferSize =
            Inr (int (length ?text), buffer') \<and>
          0 < length ?text \<and>
          drop (nat bufferSize) buffer' = drop (nat bufferSize) buffer \<and>
          (0 < bufferSize \<longrightarrow>
             c_str buffer' = take (nat bufferSize - 1) ?text \<and>
             length (c_str buffer') < length ?text)"
    by blast
next
  assume a: "localtime (tsNano sdiv 1000000000) = Some tptr \<and>
    0 \<le> bufferSize \<and> bufferSize \<le> INT_MAX \<and> nat bufferSize \<le> length buffer"
  let ?text = "filename_text tptr"
  assume short: "bufferSize < int (length ?text)"
  let ?buffer' = "if bufferSize = 0 then buffer
    else take (nat bufferSize - 1) ?text @ CHR 0x00 # drop (nat bufferSize) buffer"
  from a short have call: "GetFormattedTimeStampStringForFileNameNative localtime tsNano buffer bufferSize =
      Inr (int (length ?text), ?buffer')"
    by (intro GetFormattedTimeStampStringForFileNameNative_truncates) simp_all
  have pos: "0 < length ?text" by (rule less_le_trans [OF _ filename_text_length]) simp
  have untouched: "drop (nat bufferSize) ?buffer' = drop (nat bufferSize) buffer"
    using a short by (intro untouched_after_truncation) simp_all
  have str: "c_str ?buffer' = take (nat bufferSize - 1) ?text \<and> length (c_str ?buffer') < length ?text"
    if "0 < bufferSize"
    using that short by (simp add: c_str_truncated [OF filename_text_no_NUL])
  from call pos untouched str
  show "\<exists>buffer'. GetFormattedTimeStampStringForFileNameNative localtime tsNano buffer bufferSize =
            Inr (int (length ?text), buffer') \<and>
          0 < length ?text \<and>
          drop (nat bufferSize) buffer' = drop (nat bufferSize) buffer \<and>
          (0 < bufferSize \<longrightarrow>
             c_str buffer' = take (nat bufferSize - 1) ?text \<and>
             length (c_str buffer') < length ?text)"
    by blast
qed

theorem truncated_timestamp_returns_full_length_witness:
  "GetFormattedTimeStampString
     (\<lambda>ts. Some \<lparr>tm_sec = 5, tm_min = 4, tm_hour = 3, tm_mday = 2, tm_mon = 0, tm_year = 124\<rparr>)
     7000000 ''xxxxxxxxxxxx'' 10 =
     Inr (23, ''2024-01-0'' @ CHR 0x00 # ''xx'') \<and>
   GetFormattedTimeStampStringForFileNameNative
     (\<lambda>ts. Some \<lparr>tm_sec = 5, tm_min = 4, tm_hour = 3, tm_mday = 2, tm_mon = 0, tm_year = 124\<rparr>)
     7000000 ''xxxxxxxxxxxx'' 10 =
     Inr (12, ''202401020'' @ CHR 0x00 # ''xx'') \<and>
   (0::int) \<le> 10 \<and> (10::int) \<le> INT_MAX \<and> nat 10 \<le> length ''xxxxxxxxxxxx'' \<and>
   (10::int) < int (length (timestamp_text
      \<lparr>tm_sec = 5, tm_min = 4, tm_hour = 3, tm_mday = 2, tm_mon = 0, tm_year = 124\<rparr> 7)) \<and>
   (10::int) < int (length (filename_text
      \<lparr>tm_sec = 5, tm_min = 4, tm_hour = 3, tm_mday = 2, tm_mon = 0, tm_year = 124\<rparr>)) \<and>
   c_str (''2024-01-0'' @ CHR 0x00 # ''xx'') = ''2024-01-0'' \<and>
   c_str (''202401020'' @ CHR 0x00 # ''xx'') = ''202401020''"
  using truncated_timestamp_returns_full_length
    [of "\<lambda>ts. Some \<lparr>tm_sec = 5, tm_min = 4, tm_hour = 3, tm_mday = 2, tm_mon = 0, tm_year = 124\<rparr>"
        7000000 "\<lparr>tm_sec = 5, tm_min = 4, tm_hour = 3, tm_mday = 2, tm_mon = 0, tm_year = 124\<rparr>"
        10 "''xxxxxxxxxxxx''"]
  by (simp add: GetFormattedTimeStampString_def GetFormattedTimeStampStringForFileNameNative_def
      example_filename_text example_timestamp_text signed_divide_int_def signed_modulo_int_def
      snprintf_def size_t_def INT_MAX_def c_str_def)

text \<open>
  Claim C5. The claim does not hold of the code: neither function tests the pointer that
  \<^verbatim>\<open>localtime\<close> returns. One second before 1970, with a C library whose \<^verbatim>\<open>localtime\<close>
  fails for such a time, both functions read through the null pointer instead of
  returning 0.
\<close>

theorem localtime_failure_is_fatal:
  "GetFormattedTimeStampString (localtime_from_1970 convert) (- 1000000000) buffer bufferSize =
     Inl NullDereference \<and>
   GetFormattedTimeStampStringForFileNameNative (localtime_from_1970 convert) (- 1000000000)
     buffer bufferSize = Inl NullDereference"
  by (simp add: GetFormattedTimeStampString_def GetFormattedTimeStampStringForFileNameNative_def
      localtime_from_1970_def signed_divide_int_def)

end
